theory Spec2Isabelle
  imports Main "HOL-Library.AList" "HOL-Library.Word"
begin

section \<open>Values, objects and errors\<close>

text \<open>
  Cell and Spreadsheet instances are mutable objects compared by identity. An object is
  modelled by a reference: its index in the list of objects allocated so far, so that a new
  object always gets a reference no earlier object has.
\<close>

type_synonym cell_ref = nat
type_synonym sheet_ref = nat

text \<open>
  Every exception the modelled code can raise. The three \<open>raise Exception(...)\<close> statements
  of the source are kept apart by their message, with the value the message interpolates
  (for the cell that is not found, the text of \<open>str(cell)\<close>); the other constructors are the
  built-in exceptions of \<open>int\<close>, \<open>max\<close>, list indexing and the interpreter's recursion limit.
\<close>

datatype error =
    ValueError_int
  | ValueError_max
  | IndexError
  | RecursionError
  | Exception_out_of_bounds_x int
  | Exception_out_of_bounds_y int
  | Exception_unable_to_find_cell string

text \<open>A function object, identified by its name.\<close>

datatype callable = Function string

definition format_noop :: callable where
  "format_noop = Function ''format_noop''"

definition render_noop :: callable where
  "render_noop = Function ''render_noop''"

definition LEFT :: string where "LEFT = ''left''"
definition CENTER :: string where "CENTER = ''center''"
definition RIGHT :: string where "RIGHT = ''right''"

text \<open>
  \<open>T_cell_value\<close>: \<open>None\<close>, a string, an integer, a float (its 64 bits; no modelled function
  computes with it) or a function of the cell.
\<close>

datatype T_cell_value =
    VNone
  | VStr string
  | VInt int
  | VFloat "64 word"
  | VCallable callable

record Cell =
  raw_value :: T_cell_value
  spreadsheet :: sheet_ref
  format_fn :: callable
  render_fn :: callable
  alignment :: string

text \<open>
  The store: the Cell objects, and for each Spreadsheet object its \<open>cells\<close> dictionary, as an
  association list in insertion order.
\<close>

record store =
  objs :: "Cell list"
  cells :: "(string \<times> cell_ref) list list"

type_synonym 'a result = "error + ('a \<times> store)"

section \<open>Strings and integers of the host language\<close>

definition ascii_uppercase :: string where
  "ascii_uppercase = ''ABCDEFGHIJKLMNOPQRSTUVWXYZ''"

definition ord :: "char \<Rightarrow> int" where
  "ord c = of_char c"

text \<open>\<open>c.upper()\<close> on a one-character ASCII string.\<close>

definition upper :: "char \<Rightarrow> char" where
  "upper c = (if ord CHR ''a'' \<le> ord c \<and> ord c \<le> ord CHR ''z'' then char_of (ord c - 32) else c)"

definition digits :: string where
  "digits = ''0123456789''"

text \<open>\<open>str(n)\<close> of an integer, as the f-string of \<open>format_cell_id\<close> produces it.\<close>

fun str_nat :: "nat \<Rightarrow> string" where
  "str_nat n = (if n < 10 then [digits ! n] else str_nat (n div 10) @ [digits ! (n mod 10)])"

declare str_nat.simps [simp del]

definition str_int :: "int \<Rightarrow> string" where
  "str_int i = (if i < 0 then CHR ''-'' # str_nat (nat (- i)) else str_nat (nat i))"

text \<open>
  \<open>int(s)\<close> on a string without underscores (it is only applied to a piece of
  \<open>split("_")\<close>): surrounding whitespace is dropped, one sign is allowed, and at least one
  decimal digit must follow. A character stands for a code point below 256. The whitespace
  \<open>int\<close> drops there is tab, line feed, vertical tab, form feed, carriage return and space,
  and the two code points 133 and 160; the separators 28 to 31 are not dropped.
\<close>

definition isspace :: "char \<Rightarrow> bool" where
  "isspace c = (ord c \<in> {9, 10, 11, 12, 13, 32, 133, 160})"

definition strip :: "string \<Rightarrow> string" where
  "strip s = rev (dropWhile isspace (rev (dropWhile isspace s)))"

definition int_digits :: "string \<Rightarrow> error + int" where
  "int_digits s =
     (if s \<noteq> [] \<and> (\<forall>c \<in> set s. c \<in> set digits)
      then Inr (foldl (\<lambda>n c. n * 10 + (ord c - ord CHR ''0'')) 0 s)
      else Inl ValueError_int)"

definition int_str :: "string \<Rightarrow> error + int" where
  "int_str s =
     (case strip s of
        [] \<Rightarrow> Inl ValueError_int
      | c # cs \<Rightarrow>
          if c = CHR ''-'' then map_sum id uminus (int_digits cs)
          else if c = CHR ''+'' then int_digits cs
          else int_digits (c # cs))"

text \<open>\<open>s.split(sep)\<close> for a one-character separator: every occurrence splits.\<close>

fun split :: "char \<Rightarrow> string \<Rightarrow> string list" where
  "split sep [] = [[]]"
| "split sep (c # cs) =
     (if c = sep then [] # split sep cs
      else (case split sep cs of p # ps \<Rightarrow> (c # p) # ps | [] \<Rightarrow> [[c]]))"

text \<open>\<open>xs[i]\<close> for a non-negative index.\<close>

definition index :: "'a list \<Rightarrow> nat \<Rightarrow> error + 'a" where
  "index xs i = (if i < length xs then Inr (xs ! i) else Inl IndexError)"

text \<open>\<open>range(n)\<close> and \<open>range(a, b)\<close>.\<close>

definition py_range :: "int \<Rightarrow> int \<Rightarrow> int list" where
  "py_range a b = [a..b - 1]"

text \<open>\<open>max(xs)\<close> of a list.\<close>

definition max_list :: "int list \<Rightarrow> error + int" where
  "max_list xs = (case xs of [] \<Rightarrow> Inl ValueError_max | x # ys \<Rightarrow> Inr (fold max ys x))"

text \<open>A list comprehension over a function that may raise: the first exception ends it.\<close>

fun comprehension :: "('a \<Rightarrow> error + 'b) \<Rightarrow> 'a list \<Rightarrow> error + 'b list" where
  "comprehension f [] = Inr []"
| "comprehension f (x # xs) =
     (case f x of
        Inl e \<Rightarrow> Inl e
      | Inr y \<Rightarrow> (case comprehension f xs of Inl e \<Rightarrow> Inl e | Inr ys \<Rightarrow> Inr (y # ys)))"

section \<open>The cell address codec\<close>

function column_id_loop :: "int \<Rightarrow> string \<Rightarrow> string" where
  "column_id_loop ident string_id =
     (if ident > 0
      then column_id_loop ((ident - 1) div int (length ascii_uppercase))
             (ascii_uppercase ! nat ((ident - 1) mod int (length ascii_uppercase)) # string_id)
      else string_id)"
  by pat_completeness auto
termination
  by (relation "measure (\<lambda>(ident, s). nat ident)") (auto simp: ascii_uppercase_def)

declare column_id_loop.simps [simp del]

definition column_id_from_number :: "int \<Rightarrow> string" where
  "column_id_from_number ident = column_id_loop ident []"

definition number_from_column_id :: "string \<Rightarrow> int" where
  "number_from_column_id column_id =
     foldl (\<lambda>num c. if c \<in> set ascii_uppercase
                     then num * int (length ascii_uppercase) + (ord (upper c) - ord CHR ''A'') + 1
                     else num) 0 column_id"

definition row_number_from_cell_id :: "string \<Rightarrow> error + int" where
  "row_number_from_cell_id cell_id =
     (case index (split CHR ''_'' cell_id) 0 of Inl e \<Rightarrow> Inl e | Inr p \<Rightarrow> int_str p)"

definition column_number_from_cell_id :: "string \<Rightarrow> error + int" where
  "column_number_from_cell_id cell_id =
     (case index (split CHR ''_'' cell_id) 1 of
        Inl e \<Rightarrow> Inl e
      | Inr p \<Rightarrow> Inr (number_from_column_id p))"

definition position_from_cell_id :: "string \<Rightarrow> error + (int \<times> int)" where
  "position_from_cell_id cell_id =
     (case row_number_from_cell_id cell_id of
        Inl e \<Rightarrow> Inl e
      | Inr r \<Rightarrow> (case column_number_from_cell_id cell_id of
                    Inl e \<Rightarrow> Inl e
                  | Inr c \<Rightarrow> Inr (r, c)))"

definition format_cell_id :: "int \<Rightarrow> string \<Rightarrow> string" where
  "format_cell_id row_id column_id = str_int row_id @ ''_'' @ column_id"

definition cell_id_from_position :: "int \<times> int \<Rightarrow> string" where
  "cell_id_from_position position =
     format_cell_id (fst position) (column_id_from_number (snd position))"

definition column_ids_from_number :: "int \<Rightarrow> string list" where
  "column_ids_from_number len = map column_id_from_number (py_range 0 len)"

section \<open>Cell construction and the Spreadsheet mapping\<close>

definition Cell_init ::
  "store \<Rightarrow> T_cell_value \<Rightarrow> sheet_ref \<Rightarrow> callable option \<Rightarrow> callable option \<Rightarrow> string option
     \<Rightarrow> cell_ref \<times> store" where
  "Cell_init st v sheet fmt rnd al =
     (length (objs st),
      st\<lparr>objs := objs st @
         [\<lparr>raw_value = v,
           spreadsheet = sheet,
           format_fn = (case fmt of None \<Rightarrow> format_noop | Some f \<Rightarrow> f),
           render_fn = (case rnd of None \<Rightarrow> render_noop | Some f \<Rightarrow> f),
           alignment = (case al of None \<Rightarrow> LEFT | Some a \<Rightarrow> a)\<rparr>]\<rparr>)"

text \<open>The assignment \<open>cell._value = v\<close>.\<close>

definition Cell_set_value :: "store \<Rightarrow> cell_ref \<Rightarrow> T_cell_value \<Rightarrow> store" where
  "Cell_set_value st cell v = st\<lparr>objs := (objs st)[cell := (objs st ! cell)\<lparr>raw_value := v\<rparr>]\<rparr>"

definition Spreadsheet_init :: "store \<Rightarrow> sheet_ref \<times> store" where
  "Spreadsheet_init st = (length (cells st), st\<lparr>cells := cells st @ [[]]\<rparr>)"

definition Spreadsheet_setitem :: "store \<Rightarrow> sheet_ref \<Rightarrow> string \<Rightarrow> cell_ref \<Rightarrow> store" where
  "Spreadsheet_setitem st self cell_id cell =
     st\<lparr>cells := (cells st)[self := AList.update cell_id cell (cells st ! self)]\<rparr>"

text \<open>
  \<open>self.cells.get(cell_id, Cell(None, self))\<close>: the default argument is evaluated before
  the lookup, so a Cell is constructed on every call.
\<close>

definition Spreadsheet_getitem :: "store \<Rightarrow> sheet_ref \<Rightarrow> string \<Rightarrow> cell_ref \<times> store" where
  "Spreadsheet_getitem st self cell_id =
     (let (default, st') = Cell_init st VNone self None None None
      in (case map_of (cells st' ! self) cell_id of Some cell \<Rightarrow> cell | None \<Rightarrow> default, st'))"

datatype T_spreadsheet_value = Lit T_cell_value | CellObj cell_ref

fun fill_row ::
  "store \<Rightarrow> sheet_ref \<Rightarrow> int \<Rightarrow> (string \<times> T_spreadsheet_value) list \<Rightarrow> store" where
  "fill_row st self row_id [] = st"
| "fill_row st self row_id ((column_id, v) # rest) =
     (let cell_id = format_cell_id row_id column_id;
          (cell, st') = (case v of
                           CellObj c \<Rightarrow> (c, st)
                         | Lit x \<Rightarrow> Cell_init st x self None None None)
      in fill_row (Spreadsheet_setitem st' self cell_id cell) self row_id rest)"

fun fill_rows ::
  "store \<Rightarrow> sheet_ref \<Rightarrow> (nat \<times> T_spreadsheet_value list) list \<Rightarrow> store" where
  "fill_rows st self [] = st"
| "fill_rows st self ((row_id, row) # rest) =
     fill_rows
       (fill_row st self (int row_id) (zip (column_ids_from_number (int (length row))) row))
       self rest"

definition Spreadsheet_fill :: "store \<Rightarrow> sheet_ref \<Rightarrow> T_spreadsheet_value list list \<Rightarrow> store" where
  "Spreadsheet_fill st self data = fill_rows st self (List.enumerate 0 data)"

section \<open>Shape and extraction\<close>

definition Spreadsheet_get_num_rows :: "store \<Rightarrow> sheet_ref \<Rightarrow> error + int" where
  "Spreadsheet_get_num_rows st self =
     (case comprehension row_number_from_cell_id (map fst (cells st ! self)) of
        Inl e \<Rightarrow> Inl e
      | Inr xs \<Rightarrow> (case max_list xs of Inl e \<Rightarrow> Inl e | Inr m \<Rightarrow> Inr (m + 1)))"

definition Spreadsheet_get_num_columns :: "store \<Rightarrow> sheet_ref \<Rightarrow> error + int" where
  "Spreadsheet_get_num_columns st self =
     (case comprehension column_number_from_cell_id (map fst (cells st ! self)) of
        Inl e \<Rightarrow> Inl e
      | Inr xs \<Rightarrow> (case max_list xs of Inl e \<Rightarrow> Inl e | Inr m \<Rightarrow> Inr (m + 1)))"

definition Spreadsheet_get_shape :: "store \<Rightarrow> sheet_ref \<Rightarrow> error + (int \<times> int)" where
  "Spreadsheet_get_shape st self =
     (case Spreadsheet_get_num_rows st self of
        Inl e \<Rightarrow> Inl e
      | Inr r \<Rightarrow> (case Spreadsheet_get_num_columns st self of
                    Inl e \<Rightarrow> Inl e
                  | Inr c \<Rightarrow> Inr (r, c)))"

text \<open>\<open>[self[k] for k in ks]\<close>.\<close>

fun getitems :: "store \<Rightarrow> sheet_ref \<Rightarrow> string list \<Rightarrow> cell_ref list \<times> store" where
  "getitems st self [] = ([], st)"
| "getitems st self (k # ks) =
     (let (c, st1) = Spreadsheet_getitem st self k;
          (cs, st2) = getitems st1 self ks
      in (c # cs, st2))"

text \<open>
  The outer comprehension of \<open>get_columns\<close>: for each \<open>x\<close> the inner range calls
  \<open>get_num_rows\<close> again.
\<close>

fun get_columns_outer :: "store \<Rightarrow> sheet_ref \<Rightarrow> int list \<Rightarrow> cell_ref list list result" where
  "get_columns_outer st self [] = Inr ([], st)"
| "get_columns_outer st self (x # xs) =
     (case Spreadsheet_get_num_rows st self of
        Inl e \<Rightarrow> Inl e
      | Inr n \<Rightarrow>
          (let (column, st1) =
                 getitems st self
                   (map (\<lambda>y. format_cell_id y (column_id_from_number x)) (py_range 0 n))
           in (case get_columns_outer st1 self xs of
                 Inl e \<Rightarrow> Inl e
               | Inr (columns, st2) \<Rightarrow> Inr (column # columns, st2))))"

definition Spreadsheet_get_columns :: "store \<Rightarrow> sheet_ref \<Rightarrow> cell_ref list list result" where
  "Spreadsheet_get_columns st self =
     (case Spreadsheet_get_num_columns st self of
        Inl e \<Rightarrow> Inl e
      | Inr n \<Rightarrow> get_columns_outer st self (py_range 0 n))"

fun get_rows_outer :: "store \<Rightarrow> sheet_ref \<Rightarrow> int list \<Rightarrow> cell_ref list list result" where
  "get_rows_outer st self [] = Inr ([], st)"
| "get_rows_outer st self (y # ys) =
     (case Spreadsheet_get_num_columns st self of
        Inl e \<Rightarrow> Inl e
      | Inr n \<Rightarrow>
          (let (row, st1) =
                 getitems st self
                   (map (\<lambda>x. format_cell_id y (column_id_from_number x)) (py_range 0 n))
           in (case get_rows_outer st1 self ys of
                 Inl e \<Rightarrow> Inl e
               | Inr (rows, st2) \<Rightarrow> Inr (row # rows, st2))))"

definition Spreadsheet_get_rows :: "store \<Rightarrow> sheet_ref \<Rightarrow> cell_ref list list result" where
  "Spreadsheet_get_rows st self =
     (case Spreadsheet_get_num_rows st self of
        Inl e \<Rightarrow> Inl e
      | Inr n \<Rightarrow> get_rows_outer st self (py_range 0 n))"

section \<open>Addresses of cells, neighbours and selections\<close>

text \<open>
  The scan of \<open>self.cells.items()\<close> for the entry whose value is this very object. When
  there is none, the message of the exception interpolates \<open>str(cell)\<close>, which is computed
  first and may raise itself. \<open>str(cell)\<close> formats the resolved value of the cell; it is
  defined below (\<open>Cell_str\<close>) and passed in here.
\<close>

type_synonym str_method = "store \<Rightarrow> cell_ref \<Rightarrow> string result"

definition Spreadsheet_get_cell_id ::
  "str_method \<Rightarrow> store \<Rightarrow> sheet_ref \<Rightarrow> cell_ref \<Rightarrow> error + string" where
  "Spreadsheet_get_cell_id str_cell st self cell =
     (case find (\<lambda>(cell_id, cell_instance). cell_instance = cell) (cells st ! self) of
        Some (cell_id, cell_instance) \<Rightarrow> Inr cell_id
      | None \<Rightarrow>
          (case str_cell st cell of
             Inl e \<Rightarrow> Inl e
           | Inr (s, st') \<Rightarrow> Inl (Exception_unable_to_find_cell s)))"

definition Spreadsheet_get_cell_at_position ::
  "store \<Rightarrow> sheet_ref \<Rightarrow> int \<times> int \<Rightarrow> cell_ref result" where
  "Spreadsheet_get_cell_at_position st self position =
     (let x = fst position; y = snd position
      in if x < 0 then Inl (Exception_out_of_bounds_x x)
         else if y < 0 then Inl (Exception_out_of_bounds_y y)
         else Inr (Spreadsheet_getitem st self (cell_id_from_position (x, y))))"

definition Cell_get_cell_id :: "str_method \<Rightarrow> store \<Rightarrow> cell_ref \<Rightarrow> error + string" where
  "Cell_get_cell_id str_cell st self =
     Spreadsheet_get_cell_id str_cell st (spreadsheet (objs st ! self)) self"

definition Cell_get_position :: "str_method \<Rightarrow> store \<Rightarrow> cell_ref \<Rightarrow> error + (int \<times> int)" where
  "Cell_get_position str_cell st self =
     (case Cell_get_cell_id str_cell st self of
        Inl e \<Rightarrow> Inl e
      | Inr k \<Rightarrow> position_from_cell_id k)"

definition Cell_get_relative_neighbour ::
  "str_method \<Rightarrow> store \<Rightarrow> cell_ref \<Rightarrow> int \<times> int \<Rightarrow> cell_ref result" where
  "Cell_get_relative_neighbour str_cell st self offset =
     (case Cell_get_position str_cell st self of
        Inl e \<Rightarrow> Inl e
      | Inr (x, y) \<Rightarrow>
          Spreadsheet_get_cell_at_position st (spreadsheet (objs st ! self))
            (x + fst offset, y + snd offset))"

type_synonym T_position = "int \<times> int"
type_synonym T_bounds = "T_position \<times> T_position"

record Selection =
  bounds :: "T_bounds list"

definition Selection_init ::
  "T_position option \<Rightarrow> T_position option \<Rightarrow> T_bounds list option \<Rightarrow> Selection" where
  "Selection_init start stop bnds =
     (let b0 = [];
          b1 = (case (start, stop) of (Some s, Some e) \<Rightarrow> [(s, e)] | _ \<Rightarrow> b0);
          b2 = (case bnds of Some b \<Rightarrow> (if b \<noteq> [] then b else b1) | None \<Rightarrow> b1)
      in \<lparr>bounds = b2\<rparr>)"

definition Selection_add :: "Selection \<Rightarrow> Selection \<Rightarrow> Selection" where
  "Selection_add self other = Selection_init None None (Some ([] @ bounds self @ bounds other))"

text \<open>
  The three loops of \<open>get_cells\<close>. The result is a set of Cell objects; Cell defines neither
  \<open>__eq__\<close> nor \<open>__hash__\<close>, so its elements are references.
\<close>

fun get_cells_columns ::
  "store \<Rightarrow> sheet_ref \<Rightarrow> int \<Rightarrow> int list \<Rightarrow> cell_ref set \<Rightarrow> cell_ref set result" where
  "get_cells_columns st self row [] acc = Inr (acc, st)"
| "get_cells_columns st self row (column # columns) acc =
     (case Spreadsheet_get_cell_at_position st self (row, column) of
        Inl e \<Rightarrow> Inl e
      | Inr (cell, st') \<Rightarrow> get_cells_columns st' self row columns (insert cell acc))"

fun get_cells_rows ::
  "store \<Rightarrow> sheet_ref \<Rightarrow> int list \<Rightarrow> int \<Rightarrow> int \<Rightarrow> cell_ref set \<Rightarrow> cell_ref set result" where
  "get_cells_rows st self [] start_column stop_column acc = Inr (acc, st)"
| "get_cells_rows st self (row # rows) start_column stop_column acc =
     (case get_cells_columns st self row (py_range start_column stop_column) acc of
        Inl e \<Rightarrow> Inl e
      | Inr (acc', st') \<Rightarrow> get_cells_rows st' self rows start_column stop_column acc')"

fun get_cells_bounds ::
  "store \<Rightarrow> sheet_ref \<Rightarrow> T_bounds list \<Rightarrow> cell_ref set \<Rightarrow> cell_ref set result" where
  "get_cells_bounds st self [] acc = Inr (acc, st)"
| "get_cells_bounds st self (((start_row, start_column), (stop_row, stop_column)) # rest) acc =
     (case get_cells_rows st self (py_range start_row stop_row) start_column stop_column acc of
        Inl e \<Rightarrow> Inl e
      | Inr (acc', st') \<Rightarrow> get_cells_bounds st' self rest acc')"

definition Spreadsheet_get_cells :: "store \<Rightarrow> sheet_ref \<Rightarrow> Selection \<Rightarrow> cell_ref set result" where
  "Spreadsheet_get_cells st self selection = get_cells_bounds st self (bounds selection) {}"

section \<open>Resolving a cell's value\<close>

text \<open>
  The meaning of the function objects stored as cell values is a parameter: a table that
  gives, for each of them, what it returns on a cell in a store. Such a function may read
  \<open>value\<close> of other cells; it is handed the resolver for these nested reads. The first
  argument of \<open>Cell_value\<close> bounds the depth of nested calls, as the interpreter's recursion
  limit does.
\<close>

type_synonym resolver = "store \<Rightarrow> cell_ref \<Rightarrow> T_cell_value result"
type_synonym call_table = "callable \<Rightarrow> resolver \<Rightarrow> store \<Rightarrow> cell_ref \<Rightarrow> T_cell_value result"

primrec Cell_value :: "nat \<Rightarrow> call_table \<Rightarrow> store \<Rightarrow> cell_ref \<Rightarrow> T_cell_value result" where
  "Cell_value 0 call st self =
     (case raw_value (objs st ! self) of
        VStr s \<Rightarrow> Inr (VStr s, st)
      | VFloat x \<Rightarrow> Inr (VFloat x, st)
      | VInt i \<Rightarrow> Inr (VInt i, st)
      | VCallable f \<Rightarrow> Inl RecursionError
      | VNone \<Rightarrow> Inr (VNone, st))"
| "Cell_value (Suc depth) call st self =
     (case raw_value (objs st ! self) of
        VStr s \<Rightarrow> Inr (VStr s, st)
      | VFloat x \<Rightarrow> Inr (VFloat x, st)
      | VInt i \<Rightarrow> Inr (VInt i, st)
      | VCallable f \<Rightarrow> call f (Cell_value depth call) st self
      | VNone \<Rightarrow> Inr (VNone, st))"

text \<open>
  \<open>Cell.__str__\<close>: \<open>self.format_fn(self.value)\<close>. The meaning of the formatter function
  objects is a table too: the string a formatter returns on a value, or the exception it
  raises.
\<close>

type_synonym format_table = "callable \<Rightarrow> T_cell_value \<Rightarrow> error + string"

definition Cell_str :: "format_table \<Rightarrow> resolver \<Rightarrow> str_method" where
  "Cell_str fmt resolve st self =
     (case resolve st self of
        Inl e \<Rightarrow> Inl e
      | Inr (v, st') \<Rightarrow>
          (case fmt (format_fn (objs st ! self)) v of
             Inl e \<Rightarrow> Inl e
           | Inr s \<Rightarrow> Inr (s, st')))"

text \<open>
  The computation \<open>lambda cell: cell.get_relative_neighbour(offset).value\<close>, the way
  \<open>highlight\<close> reads the cell to its right. Its reads of \<open>value\<close>, also the one
  \<open>str(cell)\<close> makes, are nested reads.
\<close>

definition neighbour_value ::
  "format_table \<Rightarrow> int \<times> int \<Rightarrow> resolver \<Rightarrow> store \<Rightarrow> cell_ref \<Rightarrow> T_cell_value result" where
  "neighbour_value fmt offset resolve st cell =
     (case Cell_get_relative_neighbour (Cell_str fmt resolve) st cell offset of
        Inl e \<Rightarrow> Inl e
      | Inr (neighbour, st') \<Rightarrow> resolve st' neighbour)"

text \<open>\<open>[c.value for c in cs]\<close>.\<close>

fun values_of :: "nat \<Rightarrow> call_table \<Rightarrow> store \<Rightarrow> cell_ref list \<Rightarrow> T_cell_value list result" where
  "values_of depth call st [] = Inr ([], st)"
| "values_of depth call st (c # cs) =
     (case Cell_value depth call st c of
        Inl e \<Rightarrow> Inl e
      | Inr (v, st1) \<Rightarrow>
          (case values_of depth call st1 cs of
             Inl e \<Rightarrow> Inl e
           | Inr (vs, st2) \<Rightarrow> Inr (v # vs, st2)))"

section \<open>Alignment of text\<close>

definition format_align :: "string \<Rightarrow> int \<Rightarrow> string \<Rightarrow> string" where
  "format_align string width al =
     (let alignment_padding = replicate (nat (max (width - int (length string)) 0)) CHR '' ''
      in if al = ''left'' then string @ alignment_padding
         else if al = ''right'' then alignment_padding @ string
         else if al = ''center'' then
           (let center_alignment_padding =
                  replicate (nat (int (length alignment_padding) div 2)) CHR '' ''
            in center_alignment_padding @ string @ center_alignment_padding @
               replicate
                 (nat (max (int (length alignment_padding)
                            - int (length center_alignment_padding) * 2) 0))
                 CHR '' '')
         else string)"

section \<open>The initial store\<close>

text \<open>No object has been allocated.\<close>

definition empty_store :: store where
  "empty_store = \<lparr>objs = [], cells = []\<rparr>"

section \<open>Notions used to state the properties\<close>

text \<open>
  The positions the loops of \<open>get_cells\<close> visit, in the order they visit them, and the
  sequence of lookups made at them.
\<close>

definition bound_positions :: "T_bounds \<Rightarrow> T_position list" where
  "bound_positions b =
     (case b of ((start_row, start_column), (stop_row, stop_column)) \<Rightarrow>
        concat (map (\<lambda>row. map (\<lambda>column. (row, column)) (py_range start_column stop_column))
                  (py_range start_row stop_row)))"

definition selection_positions :: "Selection \<Rightarrow> T_position list" where
  "selection_positions selection = concat (map bound_positions (bounds selection))"

fun lookups :: "store \<Rightarrow> sheet_ref \<Rightarrow> T_position list \<Rightarrow> cell_ref set \<Rightarrow> cell_ref set result" where
  "lookups st self [] acc = Inr (acc, st)"
| "lookups st self (p # ps) acc =
     (case Spreadsheet_get_cell_at_position st self p of
        Inl e \<Rightarrow> Inl e
      | Inr (cell, st') \<Rightarrow> lookups st' self ps (insert cell acc))"

text \<open>
  What the lookup numbered \<open>i\<close> returns on a dictionary \<open>d\<close>: the stored cell, or else the
  Cell constructed by that very lookup.
\<close>

definition found :: "(string \<times> cell_ref) list \<Rightarrow> nat \<times> T_position \<Rightarrow> cell_ref" where
  "found d ip = (case map_of d (cell_id_from_position (snd ip)) of Some c \<Rightarrow> c | None \<Rightarrow> fst ip)"

text \<open>The grid of the shape example.\<close>

definition grid :: "T_spreadsheet_value list list" where
  "grid = [[Lit (VStr ''a''), Lit (VStr ''b'')], [Lit (VStr ''c''), Lit (VStr ''d'')]]"


text \<open>
  Two stores for the instances: a new sheet filled with the grid, and a new sheet whose
  first cell holds a function and whose second cell holds a string.
\<close>

definition example_sheet :: store where
  "example_sheet = Spreadsheet_fill (snd (Spreadsheet_init empty_store)) 0 grid"

definition deferred_sheet :: store where
  "deferred_sheet =
     Spreadsheet_fill (snd (Spreadsheet_init empty_store)) 0
       [[Lit (VCallable (Function ''right_neighbour'')), Lit (VStr ''x'')]]"

section \<open>Facts about the host-language functions\<close>

lemma length_ascii_uppercase: "length ascii_uppercase = 26"
  by (simp add: ascii_uppercase_def)

lemma nth_ascii_uppercase:
  assumes "k < 26"
  shows "ascii_uppercase ! k \<in> set ascii_uppercase"
    and "ord (upper (ascii_uppercase ! k)) - ord CHR ''A'' = int k"
    and "ascii_uppercase ! k \<noteq> CHR ''_''"
proof -
  from assms have k: "k \<in> {0,1,2,3,4,5,6,7,8,9,10,11,12,13,14,15,16,17,18,19,20,21,22,23,24,25}"
    by simp arith
  from k show "ascii_uppercase ! k \<in> set ascii_uppercase"
    by (auto simp: ascii_uppercase_def)
  from k show "ord (upper (ascii_uppercase ! k)) - ord CHR ''A'' = int k"
    by (auto simp: ascii_uppercase_def ord_def upper_def)
  from k show "ascii_uppercase ! k \<noteq> CHR ''_''"
    by (auto simp: ascii_uppercase_def)
qed

lemma nth_digits:
  assumes "k < 10"
  shows "digits ! k \<in> set digits"
    and "ord (digits ! k) - ord CHR ''0'' = int k"
proof -
  from assms have k: "k \<in> {0,1,2,3,4,5,6,7,8,9}" by simp arith
  from k show "digits ! k \<in> set digits" by (auto simp: digits_def)
  from k show "ord (digits ! k) - ord CHR ''0'' = int k" by (auto simp: digits_def ord_def)
qed

lemma digits_plain:
  assumes "c \<in> set digits"
  shows "\<not> isspace c" and "c \<noteq> CHR ''_''" and "c \<noteq> CHR ''-''" and "c \<noteq> CHR ''+''"
  using assms by (auto simp: digits_def isspace_def ord_def)

lemma str_nat_snoc: "\<not> n < 10 \<Longrightarrow> str_nat n = str_nat (n div 10) @ [digits ! (n mod 10)]"
  by (subst str_nat.simps) simp

lemma str_nat_small: "n < 10 \<Longrightarrow> str_nat n = [digits ! n]"
  by (subst str_nat.simps) simp

lemma str_nat_digits: "set (str_nat n) \<subseteq> set digits"
proof (induction n rule: str_nat.induct)
  case (1 n)
  show ?case
  proof (cases "n < 10")
    case True
    then show ?thesis using nth_digits(1)[of n] by (simp add: str_nat_small)
  next
    case False
    then show ?thesis
      using "1.IH" nth_digits(1)[of "n mod 10"] by (simp add: str_nat_snoc)
  qed
qed

lemma str_nat_nonempty: "str_nat n \<noteq> []"
  by (subst str_nat.simps) simp

lemma str_nat_value: "foldl (\<lambda>n c. n * 10 + (ord c - ord CHR ''0'')) 0 (str_nat n) = int n"
proof (induction n rule: str_nat.induct)
  case (1 n)
  show ?case
  proof (cases "n < 10")
    case True
    then show ?thesis using nth_digits(2)[of n] by (simp add: str_nat_small)
  next
    case False
    have "int (n div 10) * 10 + int (n mod 10) = int n"
      by (simp add: of_nat_div of_nat_mod)
    then show ?thesis
      using "1.IH"[OF False] nth_digits(2)[of "n mod 10"] False by (simp add: str_nat_snoc)
  qed
qed

lemma int_digits_str_nat: "int_digits (str_nat n) = Inr (int n)"
  using str_nat_digits[of n] by (auto simp: int_digits_def str_nat_nonempty str_nat_value)

lemma strip_id:
  assumes "s \<noteq> []" and "\<not> isspace (hd s)" and "\<not> isspace (last s)"
  shows "strip s = s"
proof -
  have 1: "dropWhile isspace s = s"
    using assms(1,2) by (cases s) auto
  have "dropWhile isspace (rev s) = rev s"
    using assms(1,3) by (cases "rev s") (auto simp: hd_rev dest: arg_cong[where f=hd])
  with 1 show ?thesis by (simp add: strip_def)
qed

lemma str_nat_ends:
  "hd (str_nat n) \<in> set digits" "last (str_nat n) \<in> set digits"
  using str_nat_digits[of n] str_nat_nonempty[of n] by auto

lemma str_int_no_underscore: "CHR ''_'' \<notin> set (str_int i)"
  using str_nat_digits digits_plain(2) by (auto simp: str_int_def)

text \<open>Parsing the decimal representation of an integer gives the integer back.\<close>

lemma int_str_str_int: "int_str (str_int i) = Inr i"
proof (cases "i < 0")
  case True
  have "strip (str_int i) = str_int i"
    using True str_nat_ends(2)[of "nat (- i)"] digits_plain(1)
    by (intro strip_id) (auto simp: str_int_def isspace_def ord_def str_nat_nonempty)
  then show ?thesis
    using True by (simp add: int_str_def str_int_def int_digits_str_nat)
next
  case False
  have s: "strip (str_int i) = str_int i"
    using False str_nat_ends[of "nat i"] digits_plain(1)
    by (intro strip_id) (auto simp: str_int_def str_nat_nonempty)
  obtain c cs where cs: "str_nat (nat i) = c # cs"
    using str_nat_nonempty[of "nat i"] by (cases "str_nat (nat i)") auto
  then have "c \<in> set digits" using str_nat_digits[of "nat i"] by auto
  then have "c \<noteq> CHR ''-''" "c \<noteq> CHR ''+''" using digits_plain by auto
  then show ?thesis
    using False s cs int_digits_str_nat[of "nat i"] by (simp add: int_str_def str_int_def)
qed

lemma split_no_sep: "sep \<notin> set s \<Longrightarrow> split sep s = [s]"
  by (induction s) auto

lemma split_at_first: "sep \<notin> set a \<Longrightarrow> split sep (a @ sep # b) = a # split sep b"
  by (induction a) auto

section \<open>The column letters\<close>

lemma column_id_loop_acc: "column_id_loop n (acc @ ys) = column_id_loop n acc @ ys"
proof (induction n acc arbitrary: ys rule: column_id_loop.induct)
  case (1 n acc)
  show ?case
  proof (cases "n > 0")
    case True
    then show ?thesis
      using "1.IH"[OF True, of ys] by (subst (1 2) column_id_loop.simps) simp
  next
    case False
    then show ?thesis by (subst (1 2) column_id_loop.simps) simp
  qed
qed

lemma column_id_from_number_nonpos: "n \<le> 0 \<Longrightarrow> column_id_from_number n = []"
  unfolding column_id_from_number_def by (subst column_id_loop.simps) simp

lemma column_id_from_number_pos:
  assumes "n > 0"
  shows "column_id_from_number n =
           column_id_from_number ((n - 1) div 26) @ [ascii_uppercase ! nat ((n - 1) mod 26)]"
proof -
  have "column_id_from_number n =
          column_id_loop ((n - 1) div 26) ([] @ [ascii_uppercase ! nat ((n - 1) mod 26)])"
    unfolding column_id_from_number_def using assms
    by (subst column_id_loop.simps) (simp add: length_ascii_uppercase)
  then show ?thesis
    unfolding column_id_from_number_def by (simp only: column_id_loop_acc)
qed

lemma number_from_column_id_Nil: "number_from_column_id [] = 0"
  by (simp add: number_from_column_id_def)

lemma number_from_column_id_snoc:
  "number_from_column_id (s @ [c]) =
     (if c \<in> set ascii_uppercase
      then number_from_column_id s * 26 + (ord (upper c) - ord CHR ''A'') + 1
      else number_from_column_id s)"
  by (simp add: number_from_column_id_def length_ascii_uppercase)

lemma column_round_trip: "0 \<le> n \<Longrightarrow> number_from_column_id (column_id_from_number n) = n"
proof (induction "nat n" arbitrary: n rule: less_induct)
  case less
  show ?case
  proof (cases "n = 0")
    case True
    then show ?thesis
      by (simp add: column_id_from_number_nonpos number_from_column_id_Nil)
  next
    case False
    with less.prems have pos: "n > 0" by simp
    let ?q = "(n - 1) div 26" and ?r = "(n - 1) mod 26"
    have q: "0 \<le> ?q" "nat ?q < nat n" using pos by auto
    have r: "nat ?r < 26" "int (nat ?r) = ?r" using pos by auto
    have "number_from_column_id (column_id_from_number n) = ?q * 26 + ?r + 1"
      using less.hyps[OF q(2) q(1)] nth_ascii_uppercase(1,2)[OF r(1)] r(2)
      by (simp add: column_id_from_number_pos[OF pos] number_from_column_id_snoc)
    then show ?thesis by simp
  qed
qed

lemma column_id_no_underscore: "CHR ''_'' \<notin> set (column_id_from_number n)"
proof (induction "nat n" arbitrary: n rule: less_induct)
  case less
  show ?case
  proof (cases "n > 0")
    case True
    have q: "nat ((n - 1) div 26) < nat n" using True by auto
    have r: "nat ((n - 1) mod 26) < 26" using True by auto
    show ?thesis
      using less.hyps[OF q] nth_ascii_uppercase(3)[OF r]
      by (simp add: column_id_from_number_pos[OF True])
  next
    case False
    then show ?thesis by (simp add: column_id_from_number_nonpos)
  qed
qed

lemma position_round_trip:
  "0 \<le> c \<Longrightarrow> position_from_cell_id (cell_id_from_position (r, c)) = Inr (r, c)"
  by (simp add: position_from_cell_id_def cell_id_from_position_def format_cell_id_def
      row_number_from_cell_id_def column_number_from_cell_id_def index_def
      split_at_first[OF str_int_no_underscore] split_no_sep[OF column_id_no_underscore]
      int_str_str_int column_round_trip)

text \<open>
  Claim C1. For every row \<open>r \<ge> 0\<close> and every column number \<open>c \<ge> 1\<close>, decoding the encoded
  column gives \<open>c\<close> back, and decoding the encoded cell key gives the pair \<open>(r, c)\<close> back.
\<close>

theorem codec_round_trip:
  assumes "0 \<le> r" and "1 \<le> c"
  shows "number_from_column_id (column_id_from_number c) = c
       \<and> position_from_cell_id (cell_id_from_position (r, c)) = Inr (r, c)"
  using assms by (simp add: column_round_trip position_round_trip)

theorem codec_round_trip_witness:
  "(0::int) \<le> 4 \<and> (1::int) \<le> 27
   \<and> number_from_column_id (column_id_from_number 27) = 27
   \<and> position_from_cell_id (cell_id_from_position (4, 27)) = Inr (4, 27)"
  using codec_round_trip[of 4 27] by simp

section \<open>The column decoder\<close>

text \<open>
  The decoder is a left fold; an upper-case letter contributes its index plus one, every
  other character is skipped.
\<close>

lemma number_from_column_id_append:
  "number_from_column_id (s @ t) =
     foldl (\<lambda>num c. if c \<in> set ascii_uppercase
                     then num * 26 + (ord c - ord CHR ''A'') + 1 else num)
       (number_from_column_id s) t"
proof -
  have up: "c \<in> set ascii_uppercase \<Longrightarrow> upper c = c" for c
    by (auto simp: ascii_uppercase_def upper_def ord_def)
  have "(\<lambda>num c. if c \<in> set ascii_uppercase
                  then num * int (length ascii_uppercase) + (ord (upper c) - ord CHR ''A'') + 1
                  else num)
      = (\<lambda>num c. if c \<in> set ascii_uppercase
                  then num * 26 + (ord c - ord CHR ''A'') + 1 else num)"
    by (intro ext) (simp add: up length_ascii_uppercase)
  then show ?thesis by (simp add: number_from_column_id_def)
qed

lemma number_from_column_id_skips:
  "number_from_column_id s = number_from_column_id (filter (\<lambda>c. c \<in> set ascii_uppercase) s)"
proof (induction s rule: rev_induct)
  case Nil
  show ?case by simp
next
  case (snoc c s)
  then show ?case by (simp add: number_from_column_id_snoc)
qed

text \<open>
  Claim C2. The column decoder folds its input left to right as
  \<open>acc = acc * 26 + (letter index + 1)\<close>, ignores every character outside A to Z, and is
  case-insensitive: a lower-case letter contributes what the upper-case letter does.
  The last part fails: the test \<open>c in string.ascii_uppercase\<close> is applied to the character
  before \<open>upper\<close> is, so a lower-case letter is skipped, and \<open>''a''\<close> decodes to 0 while
  \<open>''A''\<close> decodes to 1.
\<close>

theorem number_from_column_id_lowercase:
  "number_from_column_id ''a'' = 0 \<and> number_from_column_id ''A'' = 1
   \<and> number_from_column_id ''ab'' = 0 \<and> number_from_column_id ''AB'' = 28"
  by (simp add: number_from_column_id_def ascii_uppercase_def ord_def upper_def)

text \<open>
  Claim C10. The key round trip also holds at column 0: for every row \<open>r \<ge> 0\<close> the key of
  \<open>(r, 0)\<close> is the row number followed by an underscore and no letter, and it decodes to
  \<open>(r, 0)\<close> because the empty letter string decodes to 0.
\<close>

theorem column_zero_round_trip:
  assumes "0 \<le> r"
  shows "cell_id_from_position (r, 0) = str_int r @ ''_''
       \<and> number_from_column_id [] = 0
       \<and> position_from_cell_id (cell_id_from_position (r, 0)) = Inr (r, 0)"
proof (intro conjI)
  show "cell_id_from_position (r, 0) = str_int r @ ''_''"
    by (simp add: cell_id_from_position_def format_cell_id_def column_id_from_number_nonpos)
  show "number_from_column_id [] = 0"
    by (rule number_from_column_id_Nil)
  show "position_from_cell_id (cell_id_from_position (r, 0)) = Inr (r, 0)"
    by (rule position_round_trip) simp
qed

theorem column_zero_round_trip_witness:
  "(0::int) \<le> 7
   \<and> cell_id_from_position (7, 0) = ''7_''
   \<and> number_from_column_id [] = 0
   \<and> position_from_cell_id (cell_id_from_position (7, 0)) = Inr (7, 0)"
proof -
  have h: "(0::int) \<le> 7" by simp
  have s: "str_int 7 @ ''_'' = ''7_''" by (simp add: str_int_def str_nat_small digits_def)
  note t = column_zero_round_trip[OF h]
  from t have a: "cell_id_from_position (7, 0) = str_int 7 @ ''_''" by (rule conjunct1)
  from t have b: "number_from_column_id [] = 0" by blast
  from t have c: "position_from_cell_id (cell_id_from_position (7, 0)) = Inr (7, 0)" by blast
  from h a[unfolded s] b c show ?thesis by (intro conjI)
qed

section \<open>Alignment\<close>

text \<open>
  Claim C9. \<open>format_align("ab", 5, "right")\<close> is \<open>"   ab"\<close>;
  \<open>format_align("ab", 5, "center")\<close> has one space before and two after the text; and in
  general centring puts half of the padding (rounded down) on the left and the rest, which
  holds the odd space, on the right.
\<close>

theorem format_align_examples:
  "format_align ''ab'' 5 ''right'' = ''   ab''
   \<and> format_align ''ab'' 5 ''center'' = '' ab  ''
   \<and> format_align s w ''center'' =
       (let p = nat (max (w - int (length s)) 0)
        in replicate (p div 2) CHR '' '' @ s @ replicate (p div 2 + p mod 2) CHR '' '')"
proof (intro conjI)
  show "format_align ''ab'' 5 ''right'' = ''   ab''"
    by (simp add: format_align_def numeral_3_eq_3)
  show "format_align ''ab'' 5 ''center'' = '' ab  ''"
    by (simp add: format_align_def numeral_3_eq_3 numeral_2_eq_2)
  show "format_align s w ''center'' =
       (let p = nat (max (w - int (length s)) 0)
        in replicate (p div 2) CHR '' '' @ s @ replicate (p div 2 + p mod 2) CHR '' '')"
  proof -
    define p where "p = nat (max (w - int (length s)) 0)"
    have a: "nat (int p div 2) = p div 2" by (simp add: nat_div_distrib)
    have "int p = int (p div 2 * 2 + p mod 2)" by simp
    then have b: "int p - int (p div 2) * 2 = int (p mod 2)"
      by (simp only: of_nat_add of_nat_mult)
    show ?thesis
      unfolding format_align_def Let_def p_def[symmetric]
      by (simp add: a b replicate_add)
  qed
qed

section \<open>The shape of a sheet without cells\<close>

text \<open>
  Claim C3, as stated: on a freshly constructed Spreadsheet \<open>get_num_rows\<close> raises an
  explicit error of its own instead of failing in \<open>max\<close> on an empty sequence. The code has
  no such guard; the exception raised is the one of \<open>max\<close>.
\<close>

theorem get_num_rows_fresh_sheet:
  "Spreadsheet_get_num_rows (snd (Spreadsheet_init empty_store)) (fst (Spreadsheet_init empty_store))
     = Inl ValueError_max"
  by (simp add: Spreadsheet_get_num_rows_def Spreadsheet_init_def empty_store_def max_list_def)

text \<open>
  Claim C3, amended: on a Spreadsheet with zero cells \<open>get_num_rows\<close>, \<open>get_num_columns\<close>
  and \<open>get_shape\<close> raise the ValueError of \<open>max\<close> applied to an empty sequence.
\<close>

theorem shape_of_empty_sheet:
  assumes "cells st ! self = []"
  shows "Spreadsheet_get_num_rows st self = Inl ValueError_max
       \<and> Spreadsheet_get_num_columns st self = Inl ValueError_max
       \<and> Spreadsheet_get_shape st self = Inl ValueError_max"
  using assms
  by (simp add: Spreadsheet_get_num_rows_def Spreadsheet_get_num_columns_def
      Spreadsheet_get_shape_def max_list_def)

theorem shape_of_empty_sheet_witness:
  "cells (snd (Spreadsheet_init empty_store)) ! fst (Spreadsheet_init empty_store) = []
   \<and> Spreadsheet_get_num_rows (snd (Spreadsheet_init empty_store)) (fst (Spreadsheet_init empty_store))
       = Inl ValueError_max
   \<and> Spreadsheet_get_num_columns (snd (Spreadsheet_init empty_store)) (fst (Spreadsheet_init empty_store))
       = Inl ValueError_max
   \<and> Spreadsheet_get_shape (snd (Spreadsheet_init empty_store)) (fst (Spreadsheet_init empty_store))
       = Inl ValueError_max"
proof -
  have h: "cells (snd (Spreadsheet_init empty_store)) ! fst (Spreadsheet_init empty_store) = []"
    by (simp add: Spreadsheet_init_def empty_store_def)
  from h shape_of_empty_sheet[OF h] show ?thesis by (intro conjI) blast+
qed

section \<open>Reading an absent key\<close>

text \<open>
  Claim C4. Looking up a key that the cell store does not hold returns, without raising,
  a new Cell (a reference no earlier object has) whose raw value is \<open>None\<close> and whose sheet
  is this one, with the default formatter, renderer and alignment. The \<open>cells\<close> dictionary
  of every sheet is left as it was, and so is every object allocated before.
\<close>

theorem getitem_miss:
  assumes "cell_id \<notin> fst ` set (cells st ! self)"
  shows "(case Spreadsheet_getitem st self cell_id of
            (cell, st') \<Rightarrow>
              cell = length (objs st)
            \<and> objs st' ! cell =
                \<lparr>raw_value = VNone, spreadsheet = self, format_fn = format_noop,
                 render_fn = render_noop, alignment = LEFT\<rparr>
            \<and> take (length (objs st)) (objs st') = objs st
            \<and> length (objs st') = Suc (length (objs st))
            \<and> cells st' = cells st)"
proof -
  from assms have "map_of (cells st ! self) cell_id = None"
    by (simp add: map_of_eq_None_iff)
  then show ?thesis
    by (simp add: Spreadsheet_getitem_def Cell_init_def)
qed

theorem getitem_miss_witness:
  "''5_C'' \<notin> fst ` set (cells (snd (Spreadsheet_init empty_store)) ! 0)
   \<and> Spreadsheet_getitem (snd (Spreadsheet_init empty_store)) 0 ''5_C''
       = (0, \<lparr>objs = [\<lparr>raw_value = VNone, spreadsheet = 0, format_fn = format_noop,
                        render_fn = render_noop, alignment = LEFT\<rparr>],
               cells = [[]]\<rparr>)"
proof -
  have h: "''5_C'' \<notin> fst ` set (cells (snd (Spreadsheet_init empty_store)) ! 0)"
    by (simp add: Spreadsheet_init_def empty_store_def)
  have "Spreadsheet_getitem (snd (Spreadsheet_init empty_store)) 0 ''5_C''
       = (0, \<lparr>objs = [\<lparr>raw_value = VNone, spreadsheet = 0, format_fn = format_noop,
                        render_fn = render_noop, alignment = LEFT\<rparr>],
               cells = [[]]\<rparr>)"
    using getitem_miss[OF h]
    by (simp add: Spreadsheet_getitem_def Cell_init_def Spreadsheet_init_def empty_store_def)
  with h show ?thesis by (rule conjI)
qed

section \<open>Resolved values and the filled grid\<close>

lemma str_int_0: "str_int 0 = ''0''" by (simp add: str_int_def str_nat_small digits_def)
lemma str_int_1: "str_int 1 = ''1''" by (simp add: str_int_def str_nat_small digits_def)
lemma column_id_0: "column_id_from_number 0 = []" by (simp add: column_id_from_number_nonpos)
lemma column_id_1: "column_id_from_number 1 = ''A''"
  by (simp add: column_id_from_number_pos column_id_from_number_nonpos ascii_uppercase_def)

lemma py_range_0_2: "py_range 0 2 = [0, 1]"
  by (simp add: py_range_def upto_rec1)

lemma keys_decode:
  "row_number_from_cell_id ''0_'' = Inr 0" "row_number_from_cell_id ''0_A'' = Inr 0"
  "row_number_from_cell_id ''1_'' = Inr 1" "row_number_from_cell_id ''1_A'' = Inr 1"
  "column_number_from_cell_id ''0_'' = Inr 0" "column_number_from_cell_id ''0_A'' = Inr 1"
  "column_number_from_cell_id ''1_'' = Inr 0" "column_number_from_cell_id ''1_A'' = Inr 1"
  by code_simp+

lemma Cell_value_literal:
  assumes "raw_value (objs st ! c) = v" and "\<forall>f. v \<noteq> VCallable f"
  shows "Cell_value depth call st c = Inr (v, st)"
  using assms by (cases depth; cases v) auto

lemma fill_grid:
  "Spreadsheet_fill (snd (Spreadsheet_init st0)) (length (cells st0)) grid =
     \<lparr>objs = objs st0 @
        map (\<lambda>s. \<lparr>raw_value = VStr s, spreadsheet = length (cells st0), format_fn = format_noop,
                   render_fn = render_noop, alignment = LEFT\<rparr>) [''a'', ''b'', ''c'', ''d''],
      cells = cells st0 @
        [[(''0_'', length (objs st0)), (''0_A'', length (objs st0) + 1),
          (''1_'', length (objs st0) + 2), (''1_A'', length (objs st0) + 3)]]\<rparr>"
  by (simp add: Spreadsheet_fill_def Spreadsheet_init_def grid_def enumerate_eq_zip upt_rec
      column_ids_from_number_def py_range_0_2 column_id_0 column_id_1 format_cell_id_def
      str_int_0 str_int_1 Cell_init_def Spreadsheet_setitem_def Let_def)

lemmas grid_eval =
  fill_grid Spreadsheet_get_num_rows_def Spreadsheet_get_num_columns_def
  keys_decode max_list_def py_range_0_2 Spreadsheet_getitem_def Cell_init_def
  format_cell_id_def str_int_0 str_int_1 column_id_0 column_id_1 numeral_eq_Suc

lemma grid_shape:
  "Spreadsheet_get_shape (Spreadsheet_fill (snd (Spreadsheet_init st0)) (length (cells st0)) grid)
     (length (cells st0)) = Inr (2, 2)"
  by (simp add: Spreadsheet_get_shape_def grid_eval)

lemma grid_rows:
  "Spreadsheet_get_rows (Spreadsheet_fill (snd (Spreadsheet_init st0)) (length (cells st0)) grid)
     (length (cells st0)) =
   Inr ([[length (objs st0), length (objs st0) + 1],
         [length (objs st0) + 2, length (objs st0) + 3]],
        Spreadsheet_fill (snd (Spreadsheet_init st0)) (length (cells st0)) grid
          \<lparr>objs := objs (Spreadsheet_fill (snd (Spreadsheet_init st0)) (length (cells st0)) grid) @
             replicate 4 \<lparr>raw_value = VNone, spreadsheet = length (cells st0),
                            format_fn = format_noop, render_fn = render_noop, alignment = LEFT\<rparr>\<rparr>)"
  by (simp add: Spreadsheet_get_rows_def grid_eval)

lemma grid_columns:
  "Spreadsheet_get_columns (Spreadsheet_fill (snd (Spreadsheet_init st0)) (length (cells st0)) grid)
     (length (cells st0)) =
   Inr ([[length (objs st0), length (objs st0) + 2],
         [length (objs st0) + 1, length (objs st0) + 3]],
        Spreadsheet_fill (snd (Spreadsheet_init st0)) (length (cells st0)) grid
          \<lparr>objs := objs (Spreadsheet_fill (snd (Spreadsheet_init st0)) (length (cells st0)) grid) @
             replicate 4 \<lparr>raw_value = VNone, spreadsheet = length (cells st0),
                            format_fn = format_noop, render_fn = render_noop, alignment = LEFT\<rparr>\<rparr>)"
  by (simp add: Spreadsheet_get_columns_def grid_eval)

lemma grid_values:
  fixes st0 :: store
  defines "st' \<equiv> Spreadsheet_fill (snd (Spreadsheet_init st0)) (length (cells st0)) grid
          \<lparr>objs := objs (Spreadsheet_fill (snd (Spreadsheet_init st0)) (length (cells st0)) grid) @
             replicate 4 \<lparr>raw_value = VNone, spreadsheet = length (cells st0),
                            format_fn = format_noop, render_fn = render_noop, alignment = LEFT\<rparr>\<rparr>"
  shows "Cell_value depth call st' (length (objs st0)) = Inr (VStr ''a'', st')"
    and "Cell_value depth call st' (Suc (length (objs st0))) = Inr (VStr ''b'', st')"
    and "Cell_value depth call st' (Suc (Suc (length (objs st0)))) = Inr (VStr ''c'', st')"
    and "Cell_value depth call st' (length (objs st0) + 3) = Inr (VStr ''d'', st')"
  by (rule Cell_value_literal; simp add: st'_def fill_grid nth_append numeral_eq_Suc)+

text \<open>
  Claim C8. After filling a fresh Spreadsheet with the rows \<open>[["a","b"],["c","d"]]\<close>,
  \<open>get_shape\<close> returns \<open>(2, 2)\<close>, \<open>get_rows\<close> returns the cells whose values are
  \<open>"a","b"\<close> and then \<open>"c","d"\<close>, and the first element of \<open>get_columns\<close> holds the cells
  with values \<open>"a"\<close> and \<open>"c"\<close>. The sheet is created in an arbitrary store.
\<close>

theorem fill_grid_shape_rows_columns:
  "(let (self, st1) = Spreadsheet_init st0;
        st = Spreadsheet_fill st1 self
               [[Lit (VStr ''a''), Lit (VStr ''b'')], [Lit (VStr ''c''), Lit (VStr ''d'')]]
    in Spreadsheet_get_shape st self = Inr (2, 2)
     \<and> (\<exists>rows st'. Spreadsheet_get_rows st self = Inr (rows, st')
          \<and> map (values_of depth call st') rows
              = [Inr ([VStr ''a'', VStr ''b''], st'), Inr ([VStr ''c'', VStr ''d''], st')])
     \<and> (\<exists>columns st'. Spreadsheet_get_columns st self = Inr (columns, st')
          \<and> (\<exists>column. index columns 0 = Inr column
                \<and> values_of depth call st' column = Inr ([VStr ''a'', VStr ''c''], st'))))"
proof -
  have init: "Spreadsheet_init st0 = (length (cells st0), snd (Spreadsheet_init st0))"
    by (simp add: Spreadsheet_init_def)
  show ?thesis
    unfolding grid_def[symmetric]
    by (subst init) (simp add: grid_shape grid_rows grid_columns grid_values index_def)
qed

section \<open>Neighbours\<close>

text \<open>
  When the scan finds the cell, \<open>str(cell)\<close> is not computed: the key returned depends on
  the dictionary alone.
\<close>

lemma get_cell_id_found:
  assumes "Spreadsheet_get_cell_id str_cell st self cell = Inr key"
      and "cells st' ! self' = cells st ! self"
  shows "Spreadsheet_get_cell_id str_cell' st' self' cell = Inr key"
  using assms
  by (auto simp: Spreadsheet_get_cell_id_def split: option.splits sum.splits)

text \<open>A cell stored under one key only is found under that key.\<close>

lemma get_cell_id_stored:
  assumes stored: "(k, cell) \<in> set (cells st ! self)"
      and only: "\<forall>k'. (k', cell) \<in> set (cells st ! self) \<longrightarrow> k' = k"
  shows "Spreadsheet_get_cell_id str_cell st self cell = Inr k"
proof -
  let ?P = "\<lambda>(cell_id, cell_instance). cell_instance = cell"
  from stored have "\<exists>x \<in> set (cells st ! self). ?P x" by auto
  then obtain x where x: "find ?P (cells st ! self) = Some x"
    by (cases "find ?P (cells st ! self)") (auto simp: find_None_iff)
  then have "?P x" and "x \<in> set (cells st ! self)"
    by (auto simp: find_Some_iff intro: nth_mem)
  with only have "x = (k, cell)" by (cases x) auto
  with x show ?thesis by (simp add: Spreadsheet_get_cell_id_def)
qed

lemma get_relative_neighbour_eq:
  assumes "Spreadsheet_get_cell_id str_cell st (spreadsheet (objs st ! cell)) cell = Inr key"
      and "position_from_cell_id key = Inr (row, col)"
  shows "Cell_get_relative_neighbour str_cell st cell (dr, dc) =
           (if row + dr < 0 then Inl (Exception_out_of_bounds_x (row + dr))
            else if col + dc < 0 then Inl (Exception_out_of_bounds_y (col + dc))
            else Inr (Spreadsheet_getitem st (spreadsheet (objs st ! cell))
                        (cell_id_from_position (row + dr, col + dc))))"
  using assms
  by (simp add: Cell_get_relative_neighbour_def Cell_get_position_def Cell_get_cell_id_def
      Spreadsheet_get_cell_at_position_def Let_def)

lemma getitem_eq:
  "Spreadsheet_getitem st self k =
     (case map_of (cells st ! self) k of Some c \<Rightarrow> c | None \<Rightarrow> length (objs st),
      st\<lparr>objs := objs st @ [\<lparr>raw_value = VNone, spreadsheet = self, format_fn = format_noop,
                               render_fn = render_noop, alignment = LEFT\<rparr>]\<rparr>)"
  by (simp add: Spreadsheet_getitem_def Cell_init_def)

text \<open>
  Claim C6. Take a cell that its owning sheet stores at \<open>(row, col)\<close>: under the key of
  that position and under no other key. Then \<open>get_position\<close> returns \<open>(row, col)\<close>, and for
  every offset \<open>(dr, dc)\<close> \<open>get_relative_neighbour\<close> returns what the sheet's lookup gives at
  \<open>(row + dr, col + dc)\<close> (the stored cell, or a new empty Cell when the key is absent)
  when both coordinates are non-negative, and it raises exactly when \<open>row + dr\<close> or
  \<open>col + dc\<close> is negative, with the out-of-bounds exception.
\<close>

theorem relative_neighbour:
  assumes stored:
        "(cell_id_from_position (row, col), cell) \<in> set (cells st ! spreadsheet (objs st ! cell))"
      and only:
        "\<forall>k. (k, cell) \<in> set (cells st ! spreadsheet (objs st ! cell))
               \<longrightarrow> k = cell_id_from_position (row, col)"
      and col: "0 \<le> col"
  shows "Cell_get_position str_cell st cell = Inr (row, col)
       \<and> Cell_get_relative_neighbour str_cell st cell (dr, dc) =
           (if row + dr < 0 then Inl (Exception_out_of_bounds_x (row + dr))
            else if col + dc < 0 then Inl (Exception_out_of_bounds_y (col + dc))
            else Inr (case map_of (cells st ! spreadsheet (objs st ! cell))
                             (cell_id_from_position (row + dr, col + dc)) of
                        Some c \<Rightarrow> c
                      | None \<Rightarrow> length (objs st),
                      st\<lparr>objs := objs st @
                         [\<lparr>raw_value = VNone, spreadsheet = spreadsheet (objs st ! cell),
                           format_fn = format_noop, render_fn = render_noop,
                           alignment = LEFT\<rparr>]\<rparr>))
       \<and> (isl (Cell_get_relative_neighbour str_cell st cell (dr, dc))
            \<longleftrightarrow> row + dr < 0 \<or> col + dc < 0)"
proof -
  have key: "Spreadsheet_get_cell_id str_cell st (spreadsheet (objs st ! cell)) cell
               = Inr (cell_id_from_position (row, col))"
    by (rule get_cell_id_stored[OF stored only])
  have pos: "position_from_cell_id (cell_id_from_position (row, col)) = Inr (row, col)"
    by (rule position_round_trip[OF col])
  have "Cell_get_position str_cell st cell = Inr (row, col)"
    by (simp add: Cell_get_position_def Cell_get_cell_id_def key pos)
  then show ?thesis
    by (simp add: get_relative_neighbour_eq[OF key pos] getitem_eq)
qed

text \<open>
  Claim C7. No resolved value is cached: reading \<open>value\<close> of a cell that holds a function
  calls the function on the cell, every time. So for a cell whose function reads the
  value of its neighbour at offset \<open>(0, 1)\<close>: the first read gives what the neighbour
  stores, and after the neighbour's stored value is replaced, the second read gives the
  new value.
\<close>

theorem value_not_cached:
  assumes f: "raw_value (objs st ! cell) = VCallable f"
    and call: "call f = neighbour_value fmt (0, 1)"
    and cell: "cell < length (objs st)"
    and key: "Spreadsheet_get_cell_id str_cell st (spreadsheet (objs st ! cell)) cell = Inr key"
    and pos: "position_from_cell_id key = Inr (row, col)"
    and nonneg: "0 \<le> row" "0 \<le> col + 1"
    and nb: "map_of (cells st ! spreadsheet (objs st ! cell))
               (cell_id_from_position (row, col + 1)) = Some n"
    and n: "n < length (objs st)" "n \<noteq> cell"
    and v1: "raw_value (objs st ! n) = v1" "\<forall>g. v1 \<noteq> VCallable g"
    and v2: "\<forall>g. v2 \<noteq> VCallable g"
  shows "Cell_value (Suc depth) call st cell = call f (Cell_value depth call) st cell
       \<and> (\<exists>st1 st2. Cell_value (Suc depth) call st cell = Inr (v1, st1)
            \<and> Cell_value (Suc depth) call (Cell_set_value st1 n v2) cell = Inr (v2, st2))"
proof -
  let ?p = "\<lparr>raw_value = VNone, spreadsheet = spreadsheet (objs st ! cell),
              format_fn = format_noop, render_fn = render_noop, alignment = LEFT\<rparr>"
  let ?st1 = "st\<lparr>objs := objs st @ [?p]\<rparr>"
  let ?st1' = "Cell_set_value ?st1 n v2"
  let ?st2 = "?st1'\<lparr>objs := objs ?st1' @ [?p]\<rparr>"
  let ?str = "Cell_str fmt (Cell_value depth call)"
  have unfold: "Cell_value (Suc depth) call s cell
                  = neighbour_value fmt (0, 1) (Cell_value depth call) s cell"
    if "raw_value (objs s ! cell) = VCallable f" for s
    using that call by simp
  have key0: "Spreadsheet_get_cell_id ?str st (spreadsheet (objs st ! cell)) cell = Inr key"
    by (rule get_cell_id_found[OF key refl])
  have nb1: "Cell_get_relative_neighbour ?str st cell (0, 1) = Inr (n, ?st1)"
  proof -
    have "Cell_get_relative_neighbour ?str st cell (0, 1) =
            Inr (Spreadsheet_getitem st (spreadsheet (objs st ! cell))
                   (cell_id_from_position (row, col + 1)))"
      using get_relative_neighbour_eq[OF key0 pos, of 0 1] nonneg by simp
    also have "Spreadsheet_getitem st (spreadsheet (objs st ! cell))
                 (cell_id_from_position (row, col + 1)) = (n, ?st1)"
      by (simp add: getitem_eq nb)
    finally show ?thesis .
  qed
  have vn1: "raw_value (objs ?st1 ! n) = v1"
    using v1 n by (simp add: nth_append)
  have r1: "Cell_value (Suc depth) call st cell = Inr (v1, ?st1)"
    by (simp only: unfold[OF f] neighbour_value_def nb1 sum.case prod.case
        Cell_value_literal[OF vn1 v1(2)])
  have same: "objs ?st1' ! cell = objs st ! cell"
    using cell n by (simp add: Cell_set_value_def nth_append)
  have cells1: "cells ?st1' = cells st"
    by (simp add: Cell_set_value_def)
  have key1: "Spreadsheet_get_cell_id ?str ?st1' (spreadsheet (objs ?st1' ! cell)) cell = Inr key"
    unfolding same by (rule get_cell_id_found[OF key]) (simp add: cells1)
  have nb2: "Cell_get_relative_neighbour ?str ?st1' cell (0, 1) = Inr (n, ?st2)"
  proof -
    have "Cell_get_relative_neighbour ?str ?st1' cell (0, 1) =
            Inr (Spreadsheet_getitem ?st1' (spreadsheet (objs ?st1' ! cell))
                   (cell_id_from_position (row, col + 1)))"
      using get_relative_neighbour_eq[OF key1 pos, of 0 1] nonneg by simp
    also have "Spreadsheet_getitem ?st1' (spreadsheet (objs ?st1' ! cell))
                 (cell_id_from_position (row, col + 1)) = (n, ?st2)"
      unfolding getitem_eq same cells1 nb by simp
    finally show ?thesis .
  qed
  have vn: "raw_value (objs ?st2 ! n) = v2"
    using n by (simp add: Cell_set_value_def nth_append)
  have f1: "raw_value (objs ?st1' ! cell) = VCallable f"
    unfolding same by (rule f)
  have r2: "Cell_value (Suc depth) call ?st1' cell = Inr (v2, ?st2)"
    by (simp only: unfold[OF f1] neighbour_value_def nb2 sum.case prod.case
        Cell_value_literal[OF vn v2])
  from r1 r2 f call show ?thesis by auto
qed

section \<open>Selections\<close>

lemma lookups_append:
  "lookups st self (ps @ qs) acc =
     (case lookups st self ps acc of Inl e \<Rightarrow> Inl e | Inr (acc', st') \<Rightarrow> lookups st' self qs acc')"
  by (induction ps arbitrary: st acc) (auto split: sum.splits)

lemma get_cells_columns_lookups:
  "get_cells_columns st self row columns acc = lookups st self (map (\<lambda>column. (row, column)) columns) acc"
  by (induction columns arbitrary: st acc) (auto split: sum.splits)

lemma get_cells_rows_lookups:
  "get_cells_rows st self rows start_column stop_column acc =
     lookups st self
       (concat (map (\<lambda>row. map (\<lambda>column. (row, column)) (py_range start_column stop_column)) rows))
       acc"
  by (induction rows arbitrary: st acc)
     (auto simp: lookups_append get_cells_columns_lookups split: sum.splits)

lemma get_cells_bounds_lookups:
  "get_cells_bounds st self bs acc = lookups st self (concat (map bound_positions bs)) acc"
  by (induction bs arbitrary: st acc)
     (auto simp: lookups_append get_cells_rows_lookups bound_positions_def split: sum.splits)

lemma get_cells_lookups:
  "Spreadsheet_get_cells st self selection = lookups st self (selection_positions selection) {}"
  by (simp add: Spreadsheet_get_cells_def selection_positions_def get_cells_bounds_lookups)

lemma lookups_result:
  assumes "\<forall>p \<in> set ps. 0 \<le> fst p \<and> 0 \<le> snd p"
  shows "lookups st self ps acc =
           Inr (acc \<union> found (cells st ! self) ` set (List.enumerate (length (objs st)) ps),
                st\<lparr>objs := objs st @
                   replicate (length ps)
                     \<lparr>raw_value = VNone, spreadsheet = self, format_fn = format_noop,
                      render_fn = render_noop, alignment = LEFT\<rparr>\<rparr>)"
  using assms
proof (induction ps arbitrary: st acc)
  case Nil
  show ?case by simp
next
  case (Cons p ps)
  let ?e = "\<lparr>raw_value = VNone, spreadsheet = self, format_fn = format_noop,
              render_fn = render_noop, alignment = LEFT\<rparr>"
  let ?st' = "st\<lparr>objs := objs st @ [?e]\<rparr>"
  from Cons.prems have p: "0 \<le> fst p" "0 \<le> snd p" and ps: "\<forall>p \<in> set ps. 0 \<le> fst p \<and> 0 \<le> snd p"
    by auto
  have step: "Spreadsheet_get_cell_at_position st self p =
                Inr (found (cells st ! self) (length (objs st), p), ?st')"
    using p
    by (simp add: Spreadsheet_get_cell_at_position_def getitem_eq found_def Let_def
        split: option.splits)
  show ?case
    by (simp add: step Cons.IH[OF ps] replicate_append_same[symmetric] del: replicate_append_same replicate.simps)
      (simp add: replicate_app_Cons_same)
qed


lemma selection_positions_nonneg:
  assumes "\<forall>b \<in> set (bounds selection). 0 \<le> fst (fst b) \<and> 0 \<le> snd (fst b)"
  shows "\<forall>p \<in> set (selection_positions selection). 0 \<le> fst p \<and> 0 \<le> snd p"
  using assms
  by (fastforce simp: selection_positions_def bound_positions_def py_range_def split: prod.splits)

lemma found_cases:
  assumes "ip \<in> set (List.enumerate n ps)"
  obtains (stored) c where "map_of d (cell_id_from_position (snd ip)) = Some c" "found d ip = c"
        | (fresh) i where "map_of d (cell_id_from_position (snd ip)) = None" "found d ip = n + i"
                          "i < length ps" "ps ! i = snd ip"
proof (cases "map_of d (cell_id_from_position (snd ip))")
  case None
  from assms have "n \<le> fst ip" "fst ip - n < length ps" "ps ! (fst ip - n) = snd ip"
    by (auto simp: in_set_enumerate_eq)
  with None show ?thesis by (intro fresh[of "fst ip - n"]) (auto simp: found_def)
next
  case (Some c)
  then show ?thesis by (intro stored[of c]) (auto simp: found_def)
qed

lemma placeholders_eq:
  assumes wf: "\<forall>c \<in> snd ` set d. c < n"
  shows "{r \<in> found d ` set (List.enumerate n ps). n \<le> r} =
           (\<lambda>i. n + i) ` {i. i < length ps \<and> map_of d (cell_id_from_position (ps ! i)) = None}"
proof (intro equalityI subsetI)
  fix r assume "r \<in> {r \<in> found d ` set (List.enumerate n ps). n \<le> r}"
  then obtain ip where ip: "ip \<in> set (List.enumerate n ps)" and r: "r = found d ip" and ge: "n \<le> r"
    by auto
  from ip show "r \<in> (\<lambda>i. n + i) ` {i. i < length ps \<and> map_of d (cell_id_from_position (ps ! i)) = None}"
  proof (cases rule: found_cases[where d = d])
    case (stored c)
    then have "c \<in> snd ` set d" by (force dest: map_of_SomeD)
    with wf stored r ge show ?thesis by auto
  next
    case (fresh i)
    with r show ?thesis by auto
  qed
next
  fix r assume "r \<in> (\<lambda>i. n + i) ` {i. i < length ps \<and> map_of d (cell_id_from_position (ps ! i)) = None}"
  then obtain i where i: "i < length ps" "map_of d (cell_id_from_position (ps ! i)) = None" "r = n + i"
    by auto
  then have "(n + i, ps ! i) \<in> set (List.enumerate n ps)"
    by (simp add: in_set_enumerate_eq)
  moreover have "found d (n + i, ps ! i) = r"
    using i by (simp add: found_def)
  ultimately show "r \<in> {r \<in> found d ` set (List.enumerate n ps). n \<le> r}"
    using i(3) by force
qed

lemma card_placeholders:
  assumes wf: "\<forall>c \<in> snd ` set d. c < n"
  shows "card {r \<in> found d ` set (List.enumerate n ps). n \<le> r} =
           length (filter (\<lambda>p. map_of d (cell_id_from_position p) = None) ps)"
  unfolding placeholders_eq[OF wf]
  by (simp add: card_image length_filter_conv_card)

lemma placeholders_empty:
  assumes wf: "\<forall>c \<in> snd ` set d. c < length xs"
      and r: "r \<in> found d ` set (List.enumerate (length xs) ps)" "length xs \<le> r"
  shows "(xs @ replicate (length ps) e) ! r = e"
proof -
  from r have "r \<in> {r \<in> found d ` set (List.enumerate (length xs) ps). length xs \<le> r}" by simp
  then obtain i where "i < length ps" "r = length xs + i"
    unfolding placeholders_eq[OF wf] by auto
  then show ?thesis by (simp add: nth_append)
qed

lemma key_0_0: "cell_id_from_position (0, 0) = ''0_''"
  and key_0_1: "cell_id_from_position (0, 1) = ''0_A''"
  and key_1_0: "cell_id_from_position (1, 0) = ''1_''"
  and key_1_1: "cell_id_from_position (1, 1) = ''1_A''"
  by (simp_all add: cell_id_from_position_def format_cell_id_def str_int_0 str_int_1
      column_id_0 column_id_1)

lemma stored_eq:
  assumes wf: "\<forall>c \<in> snd ` set d. c < n"
  shows "{r \<in> found d ` set (List.enumerate n ps). r < n} =
           {c. \<exists>p \<in> set ps. map_of d (cell_id_from_position p) = Some c}"
proof (intro equalityI subsetI)
  fix r assume "r \<in> {r \<in> found d ` set (List.enumerate n ps). r < n}"
  then obtain ip where ip: "ip \<in> set (List.enumerate n ps)" and r: "r = found d ip" and lt: "r < n"
    by auto
  from ip have "snd ip \<in> set (map snd (List.enumerate n ps))"
    by (simp del: map_snd_enumerate)
  then have mem: "snd ip \<in> set ps"
    by simp
  from ip show "r \<in> {c. \<exists>p \<in> set ps. map_of d (cell_id_from_position p) = Some c}"
  proof (cases rule: found_cases[where d = d])
    case (stored c)
    with r mem show ?thesis by auto
  next
    case (fresh i)
    with r lt show ?thesis by simp
  qed
next
  fix r assume "r \<in> {c. \<exists>p \<in> set ps. map_of d (cell_id_from_position p) = Some c}"
  then obtain p where p: "p \<in> set ps" "map_of d (cell_id_from_position p) = Some r" by auto
  then obtain i where i: "i < length ps" "ps ! i = p" by (auto simp: in_set_conv_nth)
  then have "(n + i, p) \<in> set (List.enumerate n ps)"
    by (simp add: in_set_enumerate_eq)
  moreover have "found d (n + i, p) = r" using p by (simp add: found_def)
  moreover have "r < n" using wf p(2) by (force dest: map_of_SomeD)
  ultimately show "r \<in> {r \<in> found d ` set (List.enumerate n ps). r < n}" by force
qed

text \<open>
  Claim C5. \<open>get_cells\<close> collects Cell objects by identity. On a sheet that stores four
  different cells at the four positions of the bound \<open>((0,0),(2,2))\<close> it returns the set of
  exactly these four. On a sheet whose stored cells are allocated objects, and for a
  selection whose bounds start at non-negative coordinates, it returns without raising;
  the earlier objects in the result are the cells stored at the covered positions, and
  every lookup of an absent position adds an element of its own, a new empty Cell: the
  number of new elements is the number of such lookups, a position covered twice counted
  twice.
\<close>

theorem get_cells_by_identity:
  "(map_of (cells st ! self) (cell_id_from_position (0, 0)) = Some a
      \<and> map_of (cells st ! self) (cell_id_from_position (0, 1)) = Some b
      \<and> map_of (cells st ! self) (cell_id_from_position (1, 0)) = Some c
      \<and> map_of (cells st ! self) (cell_id_from_position (1, 1)) = Some e
      \<and> distinct [a, b, c, e]
    \<longrightarrow> (\<exists>st'. Spreadsheet_get_cells st self (Selection_init (Some (0, 0)) (Some (2, 2)) None)
                  = Inr ({a, b, c, e}, st'))
        \<and> card {a, b, c, e} = 4)
 \<and> ((\<forall>x \<in> snd ` set (cells st ! self). x < length (objs st))
      \<and> (\<forall>bd \<in> set (bounds selection). 0 \<le> fst (fst bd) \<and> 0 \<le> snd (fst bd))
    \<longrightarrow> (\<exists>S st'. Spreadsheet_get_cells st self selection = Inr (S, st')
          \<and> cells st' = cells st
          \<and> {r \<in> S. r < length (objs st)}
              = {x. \<exists>p \<in> set (selection_positions selection).
                       map_of (cells st ! self) (cell_id_from_position p) = Some x}
          \<and> card {r \<in> S. length (objs st) \<le> r}
              = length (filter (\<lambda>p. map_of (cells st ! self) (cell_id_from_position p) = None)
                          (selection_positions selection))
          \<and> (\<forall>r \<in> S. length (objs st) \<le> r \<longrightarrow>
                objs st' ! r = \<lparr>raw_value = VNone, spreadsheet = self, format_fn = format_noop,
                                 render_fn = render_noop, alignment = LEFT\<rparr>)))"
proof (intro conjI impI)
  assume h: "map_of (cells st ! self) (cell_id_from_position (0, 0)) = Some a
      \<and> map_of (cells st ! self) (cell_id_from_position (0, 1)) = Some b
      \<and> map_of (cells st ! self) (cell_id_from_position (1, 0)) = Some c
      \<and> map_of (cells st ! self) (cell_id_from_position (1, 1)) = Some e
      \<and> distinct [a, b, c, e]"
  have ps: "selection_positions (Selection_init (Some (0, 0)) (Some (2, 2)) None)
              = [(0, 0), (0, 1), (1, 0), (1, 1)]"
    by (simp add: selection_positions_def Selection_init_def bound_positions_def py_range_0_2)
  have "Spreadsheet_get_cells st self (Selection_init (Some (0, 0)) (Some (2, 2)) None)
          = Inr ({a, b, c, e},
                 st\<lparr>objs := objs st @
                    replicate 4 \<lparr>raw_value = VNone, spreadsheet = self, format_fn = format_noop,
                                  render_fn = render_noop, alignment = LEFT\<rparr>\<rparr>)"
    unfolding get_cells_lookups ps
    by (subst lookups_result) (use h in \<open>auto simp: found_def numeral_eq_Suc\<close>)
  then show "\<exists>st'. Spreadsheet_get_cells st self (Selection_init (Some (0, 0)) (Some (2, 2)) None)
                  = Inr ({a, b, c, e}, st')"
    by blast
  from h show "card {a, b, c, e} = 4" by simp
next
  assume h: "(\<forall>x \<in> snd ` set (cells st ! self). x < length (objs st))
      \<and> (\<forall>bd \<in> set (bounds selection). 0 \<le> fst (fst bd) \<and> 0 \<le> snd (fst bd))"
  then have wf: "\<forall>x \<in> snd ` set (cells st ! self). x < length (objs st)"
    and nonneg: "\<forall>p \<in> set (selection_positions selection). 0 \<le> fst p \<and> 0 \<le> snd p"
    using selection_positions_nonneg[of selection] by blast+
  let ?S = "found (cells st ! self) `
              set (List.enumerate (length (objs st)) (selection_positions selection))"
  let ?e = "\<lparr>raw_value = VNone, spreadsheet = self, format_fn = format_noop,
              render_fn = render_noop, alignment = LEFT\<rparr>"
  let ?st' = "st\<lparr>objs := objs st @ replicate (length (selection_positions selection)) ?e\<rparr>"
  have res: "Spreadsheet_get_cells st self selection = Inr (?S, ?st')"
    unfolding get_cells_lookups by (subst lookups_result[OF nonneg]) simp
  have "cells ?st' = cells st" by simp
  moreover note stored_eq[OF wf, of "selection_positions selection"]
    card_placeholders[OF wf, of "selection_positions selection"]
  moreover have "\<forall>r \<in> ?S. length (objs st) \<le> r \<longrightarrow> objs ?st' ! r = ?e"
    using placeholders_empty[OF wf] by simp
  ultimately show "\<exists>S st'. Spreadsheet_get_cells st self selection = Inr (S, st')
          \<and> cells st' = cells st
          \<and> {r \<in> S. r < length (objs st)}
              = {x. \<exists>p \<in> set (selection_positions selection).
                       map_of (cells st ! self) (cell_id_from_position p) = Some x}
          \<and> card {r \<in> S. length (objs st) \<le> r}
              = length (filter (\<lambda>p. map_of (cells st ! self) (cell_id_from_position p) = None)
                          (selection_positions selection))
          \<and> (\<forall>r \<in> S. length (objs st) \<le> r \<longrightarrow>
                objs st' ! r = \<lparr>raw_value = VNone, spreadsheet = self, format_fn = format_noop,
                                 render_fn = render_noop, alignment = LEFT\<rparr>)"
    using res by blast
qed

section \<open>Instances on concrete sheets\<close>

lemma example_sheet_eq:
  "example_sheet =
     \<lparr>objs = map (\<lambda>s. \<lparr>raw_value = VStr s, spreadsheet = 0, format_fn = format_noop,
                       render_fn = render_noop, alignment = LEFT\<rparr>) [''a'', ''b'', ''c'', ''d''],
      cells = [[(''0_'', 0), (''0_A'', 1), (''1_'', 2), (''1_A'', 3)]]\<rparr>"
  using fill_grid[of empty_store] by (simp add: example_sheet_def empty_store_def)

lemma deferred_sheet_eq:
  "deferred_sheet =
     \<lparr>objs = [\<lparr>raw_value = VCallable (Function ''right_neighbour''), spreadsheet = 0,
               format_fn = format_noop, render_fn = render_noop, alignment = LEFT\<rparr>,
              \<lparr>raw_value = VStr ''x'', spreadsheet = 0,
               format_fn = format_noop, render_fn = render_noop, alignment = LEFT\<rparr>],
      cells = [[(''0_'', 0), (''0_A'', 1)]]\<rparr>"
  by (simp add: deferred_sheet_def empty_store_def Spreadsheet_fill_def Spreadsheet_init_def
      enumerate_eq_zip upt_rec
      column_ids_from_number_def py_range_0_2 column_id_0 column_id_1 format_cell_id_def
      str_int_0 Cell_init_def Spreadsheet_setitem_def Let_def)

lemma position_0: "position_from_cell_id ''0_'' = Inr (0, 0)"
  by code_simp

theorem value_not_cached_witness:
  "raw_value (objs deferred_sheet ! 0) = VCallable (Function ''right_neighbour'')
   \<and> 0 < length (objs deferred_sheet)
   \<and> Spreadsheet_get_cell_id (\<lambda>st c. Inr ([], st)) deferred_sheet
        (spreadsheet (objs deferred_sheet ! 0)) 0 = Inr ''0_''
   \<and> position_from_cell_id ''0_'' = Inr (0, 0)
   \<and> map_of (cells deferred_sheet ! spreadsheet (objs deferred_sheet ! 0))
        (cell_id_from_position (0, 0 + 1)) = Some 1
   \<and> 1 < length (objs deferred_sheet)
   \<and> raw_value (objs deferred_sheet ! 1) = VStr ''x''
   \<and> (\<exists>st1 st2.
         Cell_value (Suc 0) (\<lambda>f. neighbour_value (\<lambda>g v. Inr []) (0, 1)) deferred_sheet 0
           = Inr (VStr ''x'', st1)
       \<and> Cell_value (Suc 0) (\<lambda>f. neighbour_value (\<lambda>g v. Inr []) (0, 1))
           (Cell_set_value st1 1 (VStr ''y'')) 0
           = Inr (VStr ''y'', st2))"
proof -
  let ?call = "\<lambda>f :: callable. neighbour_value (\<lambda>g v. Inr []) (0, 1)"
  let ?str = "\<lambda>(st :: store) (c :: cell_ref). Inr ([], st) :: string result"
  have f: "raw_value (objs deferred_sheet ! 0) = VCallable (Function ''right_neighbour'')"
    by (simp add: deferred_sheet_eq)
  have call: "?call (Function ''right_neighbour'') = neighbour_value (\<lambda>g v. Inr []) (0, 1)"
    by simp
  have cell: "0 < length (objs deferred_sheet)"
    by (simp add: deferred_sheet_eq)
  have key: "Spreadsheet_get_cell_id ?str deferred_sheet
               (spreadsheet (objs deferred_sheet ! 0)) 0 = Inr ''0_''"
    by (simp add: deferred_sheet_eq Spreadsheet_get_cell_id_def)
  have pos: "position_from_cell_id ''0_'' = Inr (0, 0)"
    by (rule position_0)
  have nonneg: "(0::int) \<le> 0" "(0::int) \<le> 0 + 1"
    by simp_all
  have nb: "map_of (cells deferred_sheet ! spreadsheet (objs deferred_sheet ! 0))
              (cell_id_from_position (0, 0 + 1)) = Some 1"
    by (simp add: deferred_sheet_eq key_0_1)
  have n: "1 < length (objs deferred_sheet)" "(1::nat) \<noteq> 0"
    by (simp_all add: deferred_sheet_eq)
  have v1: "raw_value (objs deferred_sheet ! 1) = VStr ''x''" "\<forall>g. VStr ''x'' \<noteq> VCallable g"
    by (simp_all add: deferred_sheet_eq)
  have v2: "\<forall>g. VStr ''y'' \<noteq> VCallable g"
    by simp
  from value_not_cached[where call = ?call and depth = 0,
      OF f call cell key pos nonneg nb n v1 v2]
  have "\<exists>st1 st2.
         Cell_value (Suc 0) ?call deferred_sheet 0 = Inr (VStr ''x'', st1)
       \<and> Cell_value (Suc 0) ?call (Cell_set_value st1 1 (VStr ''y'')) 0 = Inr (VStr ''y'', st2)"
    by (rule conjunct2)
  with f cell key pos nb n(1) v1(1) show ?thesis by (intro conjI)
qed

lemma key_5_5: "cell_id_from_position (5, 5) = ''5_E''"
  by code_simp

theorem get_cells_by_identity_witness:
  "map_of (cells example_sheet ! 0) (cell_id_from_position (0, 0)) = Some 0
   \<and> map_of (cells example_sheet ! 0) (cell_id_from_position (0, 1)) = Some 1
   \<and> map_of (cells example_sheet ! 0) (cell_id_from_position (1, 0)) = Some 2
   \<and> map_of (cells example_sheet ! 0) (cell_id_from_position (1, 1)) = Some 3
   \<and> distinct [0, 1, 2, 3 :: nat]
   \<and> (\<exists>st'. Spreadsheet_get_cells example_sheet 0 (Selection_init (Some (0, 0)) (Some (2, 2)) None)
               = Inr ({0, 1, 2, 3}, st'))
   \<and> card {0, 1, 2, 3 :: nat} = 4
   \<and> list_all (\<lambda>x. x < length (objs example_sheet)) (map snd (cells example_sheet ! 0))
   \<and> bounds (Selection_add (Selection_init (Some (5, 5)) (Some (6, 6)) None)
                            (Selection_init (Some (5, 5)) (Some (6, 6)) None))
       = [((5, 5), (6, 6)), ((5, 5), (6, 6))]
   \<and> (\<exists>S st'. Spreadsheet_get_cells example_sheet 0
                  (Selection_add (Selection_init (Some (5, 5)) (Some (6, 6)) None)
                                 (Selection_init (Some (5, 5)) (Some (6, 6)) None))
                = Inr (S, st')
            \<and> card {r \<in> S. 4 \<le> r} = 2)"
proof -
  let ?dup = "Selection_add (Selection_init (Some (5, 5)) (Some (6, 6)) None)
                            (Selection_init (Some (5, 5)) (Some (6, 6)) None)"
  have h1: "map_of (cells example_sheet ! 0) (cell_id_from_position (0, 0)) = Some 0
   \<and> map_of (cells example_sheet ! 0) (cell_id_from_position (0, 1)) = Some 1
   \<and> map_of (cells example_sheet ! 0) (cell_id_from_position (1, 0)) = Some 2
   \<and> map_of (cells example_sheet ! 0) (cell_id_from_position (1, 1)) = Some 3
   \<and> distinct [0, 1, 2, 3 :: nat]"
    by (simp add: example_sheet_eq key_0_0 key_0_1 key_1_0 key_1_1)
  have bd: "bounds ?dup = [((5, 5), (6, 6)), ((5, 5), (6, 6))]"
    by (simp add: Selection_add_def Selection_init_def)
  have h2: "(\<forall>x \<in> snd ` set (cells example_sheet ! 0). x < length (objs example_sheet))
      \<and> (\<forall>bd \<in> set (bounds ?dup). 0 \<le> fst (fst bd) \<and> 0 \<le> snd (fst bd))"
    by (simp add: bd) (simp add: example_sheet_eq)
  have ps: "selection_positions ?dup = [(5, 5), (5, 5)]"
    by (simp add: selection_positions_def bd bound_positions_def py_range_def)
  have len: "length (objs example_sheet) = 4"
    by (simp add: example_sheet_eq)
  have absent: "map_of (cells example_sheet ! 0) ''5_E'' = None"
    by (simp add: example_sheet_eq)
  note t = get_cells_by_identity[of example_sheet 0 0 1 2 3 ?dup]
  from t h1 have a: "(\<exists>st'. Spreadsheet_get_cells example_sheet 0 (Selection_init (Some (0, 0)) (Some (2, 2)) None)
               = Inr ({0, 1, 2, 3}, st')) \<and> card {0, 1, 2, 3 :: nat} = 4"
    by blast
  from t h2 obtain S st' where
    S: "Spreadsheet_get_cells example_sheet 0 ?dup = Inr (S, st')"
    and c: "card {r \<in> S. length (objs example_sheet) \<le> r}
              = length (filter (\<lambda>p. map_of (cells example_sheet ! 0) (cell_id_from_position p) = None)
                          (selection_positions ?dup))"
    by blast
  from c have "card {r \<in> S. 4 \<le> r} = 2"
    by (simp add: len ps key_5_5 absent)
  with S have b: "\<exists>S st'. Spreadsheet_get_cells example_sheet 0 ?dup = Inr (S, st')
            \<and> card {r \<in> S. 4 \<le> r} = 2"
    by blast
  have wf: "list_all (\<lambda>x. x < length (objs example_sheet)) (map snd (cells example_sheet ! 0))"
    by (simp add: example_sheet_eq)
  from h1 a wf bd b show ?thesis by blast
qed

lemma key_1_5: "cell_id_from_position (1, 5) = ''1_E''"
  by code_simp

theorem relative_neighbour_witness:
  "(cell_id_from_position (1, 1), 3) \<in> set (cells example_sheet ! spreadsheet (objs example_sheet ! 3))
   \<and> map fst (filter (\<lambda>kc. snd kc = 3)
                 (cells example_sheet ! spreadsheet (objs example_sheet ! 3)))
       = [cell_id_from_position (1, 1)]
   \<and> (0::int) \<le> 1
   \<and> Cell_get_position (\<lambda>st c. Inr ([], st)) example_sheet 3 = Inr (1, 1)
   \<and> Cell_get_relative_neighbour (\<lambda>st c. Inr ([], st)) example_sheet 3 (- 1, - 1) =
       Inr (0, example_sheet\<lparr>objs := objs example_sheet @
                 [\<lparr>raw_value = VNone, spreadsheet = 0, format_fn = format_noop,
                   render_fn = render_noop, alignment = LEFT\<rparr>]\<rparr>)
   \<and> Cell_get_relative_neighbour (\<lambda>st c. Inr ([], st)) example_sheet 3 (0, 4) =
       Inr (4, example_sheet\<lparr>objs := objs example_sheet @
                 [\<lparr>raw_value = VNone, spreadsheet = 0, format_fn = format_noop,
                   render_fn = render_noop, alignment = LEFT\<rparr>]\<rparr>)
   \<and> Cell_get_relative_neighbour (\<lambda>st c. Inr ([], st)) example_sheet 3 (0, - 2)
       = Inl (Exception_out_of_bounds_y (- 1))
   \<and> Cell_get_relative_neighbour (\<lambda>st c. Inr ([], st)) example_sheet 3 (- 2, 0)
       = Inl (Exception_out_of_bounds_x (- 1))"
proof -
  let ?str = "\<lambda>(st :: store) (c :: cell_ref). Inr ([], st) :: string result"
  have s: "spreadsheet (objs example_sheet ! 3) = 0"
    by (simp add: example_sheet_eq)
  have c: "cells example_sheet ! 0 = [(''0_'', 0), (''0_A'', 1), (''1_'', 2), (''1_A'', 3)]"
    by (simp add: example_sheet_eq)
  have h1: "(cell_id_from_position (1, 1), 3)
              \<in> set (cells example_sheet ! spreadsheet (objs example_sheet ! 3))"
    unfolding s c key_1_1 by simp
  have h2: "\<forall>k. (k, 3) \<in> set (cells example_sheet ! spreadsheet (objs example_sheet ! 3))
                 \<longrightarrow> k = cell_id_from_position (1, 1)"
    unfolding s c key_1_1 by simp
  have h3: "(0::int) \<le> 1"
    by simp
  have m0: "map_of (cells example_sheet ! 0) (cell_id_from_position (1 + - 1, 1 + - 1)) = Some 0"
    unfolding c by (simp add: key_0_0)
  have m1: "map_of (cells example_sheet ! 0) (cell_id_from_position (1 + 0, 1 + 4)) = None"
    unfolding c by (simp add: key_1_5)
  have len: "length (objs example_sheet) = 4"
    by (simp add: example_sheet_eq)
  note t = relative_neighbour[OF h1 h2 h3, where str_cell = ?str, unfolded s]
  from t[of 0 0] have p: "Cell_get_position ?str example_sheet 3 = Inr (1, 1)"
    by (rule conjunct1)
  from t[of "- 1" "- 1"] have a: "Cell_get_relative_neighbour ?str example_sheet 3 (- 1, - 1) =
       Inr (0, example_sheet\<lparr>objs := objs example_sheet @
                 [\<lparr>raw_value = VNone, spreadsheet = 0, format_fn = format_noop,
                   render_fn = render_noop, alignment = LEFT\<rparr>]\<rparr>)"
    unfolding m0 by simp
  from t[of 0 4] have b: "Cell_get_relative_neighbour ?str example_sheet 3 (0, 4) =
       Inr (4, example_sheet\<lparr>objs := objs example_sheet @
                 [\<lparr>raw_value = VNone, spreadsheet = 0, format_fn = format_noop,
                   render_fn = render_noop, alignment = LEFT\<rparr>]\<rparr>)"
    unfolding m1 len by simp
  from t[of 0 "- 2"] have d: "Cell_get_relative_neighbour ?str example_sheet 3 (0, - 2)
       = Inl (Exception_out_of_bounds_y (- 1))"
    by simp
  from t[of "- 2" 0] have e: "Cell_get_relative_neighbour ?str example_sheet 3 (- 2, 0)
       = Inl (Exception_out_of_bounds_x (- 1))"
    by simp
  have h2': "map fst (filter (\<lambda>kc. snd kc = 3)
                 (cells example_sheet ! spreadsheet (objs example_sheet ! 3)))
       = [cell_id_from_position (1, 1)]"
    unfolding s c key_1_1 by simp
  from h1 h2' h3 p a b d e show ?thesis by (intro conjI)
qed

end
